theory Spec2Isabelle
  imports Main "HOL-Library.Char_ord" "HOL-Library.List_Lexorder" "HOL-Library.Option_ord"
begin

section \<open>Python values used by app.py\<close>

text \<open>
  A Python \<open>str\<close> is modelled as a \<open>string\<close>; a \<open>char\<close> stands for the code point of
  the same number, so the model covers strings of code points below 256. Comparison of
  strings (\<open><\<close>, \<open>==\<close>) is the lexicographic order on code points, which is the order
  of \<open>HOL-Library.List_Lexorder\<close> over \<open>HOL-Library.Char_ord\<close>; SQLite's default
  collation on TEXT orders the same way.
\<close>

definition py_isspace :: "char \<Rightarrow> bool" where
  \<comment> \<open>\<open>str.isspace\<close> on one character: the code points below 256 that Python strips.\<close>
  "py_isspace c =
     (let n = (of_char c :: nat)
      in (9 \<le> n \<and> n \<le> 13) \<or> (28 \<le> n \<and> n \<le> 32) \<or> n = 133 \<or> n = 160)"

definition py_strip :: "string \<Rightarrow> string" where
  \<comment> \<open>\<open>s.strip()\<close>: leading and trailing whitespace removed.\<close>
  "py_strip s = rev (dropWhile py_isspace (rev (dropWhile py_isspace s)))"

definition or_empty :: "string option \<Rightarrow> string" where
  \<comment> \<open>\<open>request.form.get(k) or ""\<close>: an absent field and an empty one both give \<open>""\<close>.\<close>
  "or_empty v = (case v of None \<Rightarrow> [] | Some s \<Rightarrow> s)"

definition or_none :: "string \<Rightarrow> string option" where
  \<comment> \<open>\<open>s or None\<close>: the empty string is falsy.\<close>
  "or_none s = (if s = [] then None else Some s)"

definition args_get :: "string option \<Rightarrow> string \<Rightarrow> string" where
  \<comment> \<open>\<open>request.args.get(k, default)\<close>: the default only when the parameter is absent.\<close>
  "args_get v dflt = (case v of None \<Rightarrow> dflt | Some s \<Rightarrow> s)"

text \<open>
  The payload of an event is a dict that \<open>log_event\<close> serialises with \<open>json.dumps\<close> and
  \<open>undo_last\<close> reads back with \<open>json.loads\<close>. The model keeps the dict itself (an
  association list, first binding of a key wins) with the three kinds of value the
  routes put into it: \<open>None\<close>, an integer, a string.
\<close>

datatype jval = JNull | JInt int | JStr string

type_synonym payload = "(string \<times> jval) list"

datatype exn = KeyError | TypeError | ValueError | IntegrityError | Unsupported

definition py_getitem :: "payload \<Rightarrow> string \<Rightarrow> exn + jval" where
  \<comment> \<open>\<open>payload[k]\<close>: raises KeyError on a missing key.\<close>
  "py_getitem p k = (case map_of p k of None \<Rightarrow> Inl KeyError | Some v \<Rightarrow> Inr v)"

definition py_get :: "payload \<Rightarrow> string \<Rightarrow> jval" where
  \<comment> \<open>\<open>payload.get(k)\<close>: \<open>None\<close> on a missing key.\<close>
  "py_get p k = (case map_of p k of None \<Rightarrow> JNull | Some v \<Rightarrow> v)"

definition is_digit :: "char \<Rightarrow> bool" where
  "is_digit c = (let n = (of_char c :: nat) in 48 \<le> n \<and> n \<le> 57)"

definition digit_val :: "char \<Rightarrow> int" where
  "digit_val c = int (of_char c) - 48"

fun parse_digits :: "string \<Rightarrow> int \<Rightarrow> int option" where
  \<comment> \<open>the rest of a numeral after a digit: digits, single underscores between digits\<close>
  "parse_digits [] acc = Some acc"
| "parse_digits (c # cs) acc =
     (if is_digit c then parse_digits cs (10 * acc + digit_val c)
      else if c = CHR ''_'' then
        (case cs of
           [] \<Rightarrow> None
         | d # ds \<Rightarrow> if is_digit d then parse_digits ds (10 * acc + digit_val d) else None)
      else None)"

definition parse_nat :: "string \<Rightarrow> int option" where
  "parse_nat s =
     (case s of
        [] \<Rightarrow> None
      | c # cs \<Rightarrow> if is_digit c then parse_digits cs (digit_val c) else None)"

definition parse_int :: "string \<Rightarrow> int option" where
  \<comment> \<open>a decimal numeral with an optional sign, surrounding whitespace allowed\<close>
  "parse_int s =
     (case py_strip s of
        [] \<Rightarrow> None
      | c # cs \<Rightarrow>
          if c = CHR ''-'' then map_option uminus (parse_nat cs)
          else if c = CHR ''+'' then parse_nat cs
          else parse_nat (c # cs))"

definition py_int :: "jval \<Rightarrow> exn + int" where
  \<comment> \<open>\<open>int(v)\<close>: TypeError on \<open>None\<close>, ValueError on a string that is no numeral.\<close>
  "py_int v =
     (case v of
        JNull \<Rightarrow> Inl TypeError
      | JInt n \<Rightarrow> Inr n
      | JStr s \<Rightarrow> (case parse_int s of None \<Rightarrow> Inl ValueError | Some n \<Rightarrow> Inr n))"

fun digits_of :: "nat \<Rightarrow> string" where
  "digits_of n =
     (if n < 10 then [char_of (48 + n)]
      else digits_of (n div 10) @ [char_of (48 + n mod 10)])"

definition decimal :: "int \<Rightarrow> string" where
  "decimal i = (if i < 0 then CHR ''-'' # digits_of (nat (- i)) else digits_of (nat i))"

definition sql_text :: "jval \<Rightarrow> string option" where
  \<comment> \<open>a bound parameter stored in a TEXT column: NULL, the string, or the integer's
      decimal text (the column's affinity converts it)\<close>
  "sql_text v = (case v of JNull \<Rightarrow> None | JInt n \<Rightarrow> Some (decimal n) | JStr s \<Rightarrow> Some s)"

definition json_text :: "string option \<Rightarrow> jval" where
  \<comment> \<open>a nullable TEXT value put into a payload\<close>
  "json_text v = (case v of None \<Rightarrow> JNull | Some s \<Rightarrow> JStr s)"

section \<open>The two tables\<close>

text \<open>
  The rows of \<open>init_db\<close>'s schema. \<open>done\<close> and \<open>deleted\<close> are INTEGER columns, read
  by the routes with \<open>== 0\<close> and \<open>== 1\<close>; they stay integers here. \<open>due_date\<close> and
  \<open>task_id\<close> are the nullable columns. A table is the list of its rows together with
  the counter that AUTOINCREMENT keeps for it.
\<close>

record task =
  t_id :: int
  t_title :: string
  t_due_date :: "string option"
  t_done :: int
  t_deleted :: int
  t_created_at :: string
  t_updated_at :: string

record event =
  e_id :: int
  e_action :: string
  e_task_id :: "int option"
  e_payload :: payload
  e_created_at :: string

record db =
  tasks :: "task list"
  events :: "event list"
  tasks_seq :: int
  events_seq :: int

definition new_rowid :: "int \<Rightarrow> int list \<Rightarrow> int" where
  \<comment> \<open>\<open>INTEGER PRIMARY KEY AUTOINCREMENT\<close>: one more than the largest id in the table and
      than the largest id the table ever held (its counter); 1 for a fresh table. The
      engine's 64-bit limit on ids is not modelled.\<close>
  "new_rowid seq ids =
     max (case ids of [] \<Rightarrow> 1 | i # is \<Rightarrow> fold max is i + 1) (seq + 1)"

definition where_id :: "int option \<Rightarrow> task \<Rightarrow> bool" where
  \<comment> \<open>\<open>WHERE id=?\<close>: a NULL parameter matches no row.\<close>
  "where_id k r = (case k of None \<Rightarrow> False | Some i \<Rightarrow> t_id r = i)"

definition update_tasks :: "int option \<Rightarrow> (task \<Rightarrow> task) \<Rightarrow> db \<Rightarrow> db" where
  \<comment> \<open>\<open>UPDATE tasks SET ... WHERE id=?\<close>: no matching row is no error.\<close>
  "update_tasks k f d = d\<lparr>tasks := map (\<lambda>r. if where_id k r then f r else r) (tasks d)\<rparr>"

definition delete_tasks :: "int option \<Rightarrow> db \<Rightarrow> db" where
  \<comment> \<open>\<open>DELETE FROM tasks WHERE id=?\<close>\<close>
  "delete_tasks k d = d\<lparr>tasks := filter (\<lambda>r. \<not> where_id k r) (tasks d)\<rparr>"

definition delete_event :: "int \<Rightarrow> db \<Rightarrow> db" where
  \<comment> \<open>\<open>DELETE FROM events WHERE id=?\<close>\<close>
  "delete_event i d = d\<lparr>events := filter (\<lambda>e. e_id e \<noteq> i) (events d)\<rparr>"

definition log_event :: "string \<Rightarrow> int option \<Rightarrow> payload \<Rightarrow> string \<Rightarrow> db \<Rightarrow> db" where
  \<comment> \<open>the last argument but one is the value of \<open>now_iso()\<close> inside \<open>log_event\<close>\<close>
  "log_event action task_id p now d =
     (let i = new_rowid (events_seq d) (map e_id (events d))
      in d\<lparr>events := events d @
              [\<lparr>e_id = i, e_action = action, e_task_id = task_id, e_payload = p,
                e_created_at = now\<rparr>],
            events_seq := i\<rparr>)"

definition fetch_task :: "db \<Rightarrow> int \<Rightarrow> task option" where
  \<comment> \<open>\<open>None\<close> is the \<open>ValueError("Task not found")\<close> of the source.\<close>
  "fetch_task d task_id = find (\<lambda>r. t_id r = task_id) (tasks d)"

fun newest :: "event list \<Rightarrow> event option" where
  "newest [] = None"
| "newest (e # es) =
     (case newest es of
        None \<Rightarrow> Some e
      | Some m \<Rightarrow> if e_id e < e_id m then Some m else Some e)"

definition last_event :: "db \<Rightarrow> event option" where
  \<comment> \<open>\<open>SELECT * FROM events ORDER BY id DESC LIMIT 1\<close>\<close>
  "last_event d = newest (events d)"

section \<open>The routes that write\<close>

text \<open>
  What a request ends in. \<open>Ok\<close> is a plain redirect after a write.
  \<open>ValidationError\<close> is the flash "Task title can't be empty.", \<open>NotFound\<close> the
  ValueError that \<open>fetch_task\<close> raises (the transaction is rolled back),
  \<open>InvalidState\<close> the flash "Can't toggle a deleted task.", \<open>AlreadyDeleted\<close> and
  \<open>NotDeleted\<close> the silent redirects of \<open>delete_task\<close> and \<open>restore_task\<close>,
  \<open>NothingToUndo\<close> the flash "Nothing to undo yet.", \<open>UndoUnsupported\<close> the flash
  "Undo not supported for that action yet.", \<open>UndoFailed\<close> the flash
  "Undo failed (task may have been removed).", \<open>Undone\<close> the flash "Undid last action.".
  Every route takes the values that its calls of \<open>now_iso()\<close> return: \<open>ts\<close> for the
  row, \<open>now\<close> for the event.
\<close>

datatype outcome =
    Ok | ValidationError | NotFound | InvalidState | AlreadyDeleted | NotDeleted
  | NothingToUndo | UndoUnsupported | UndoFailed | Undone

definition add_task :: "string option \<Rightarrow> string option \<Rightarrow> string \<Rightarrow> string \<Rightarrow> db \<Rightarrow> outcome \<times> db" where
  "add_task form_title form_due ts now d =
     (let title = py_strip (or_empty form_title);
          due_date = or_none (py_strip (or_empty form_due))
      in if title = [] then (ValidationError, d)
         else
           let task_id = new_rowid (tasks_seq d) (map t_id (tasks d));
               d1 = d\<lparr>tasks := tasks d @
                        [\<lparr>t_id = task_id, t_title = title, t_due_date = due_date, t_done = 0,
                          t_deleted = 0, t_created_at = ts, t_updated_at = ts\<rparr>],
                      tasks_seq := task_id\<rparr>
           in (Ok, log_event ''create'' (Some task_id)
                     [(''title'', JStr title), (''due_date'', json_text due_date)] now d1))"

definition toggle_task :: "int \<Rightarrow> string \<Rightarrow> string \<Rightarrow> db \<Rightarrow> outcome \<times> db" where
  "toggle_task task_id ts now d =
     (case fetch_task d task_id of
        None \<Rightarrow> (NotFound, d)
      | Some t \<Rightarrow>
          if t_deleted t = 1 then (InvalidState, d)
          else
            let before_done = t_done t;
                after_done = (if before_done = 1 then 0 else 1);
                d1 = update_tasks (Some task_id)
                       (\<lambda>r. r\<lparr>t_done := after_done, t_updated_at := ts\<rparr>) d
            in (Ok, log_event ''toggle'' (Some task_id)
                      [(''before_done'', JInt before_done), (''after_done'', JInt after_done)]
                      now d1))"

definition edit_task :: "int \<Rightarrow> string option \<Rightarrow> string option \<Rightarrow> string \<Rightarrow> string \<Rightarrow> db \<Rightarrow> outcome \<times> db" where
  "edit_task task_id form_title form_due ts now d =
     (let new_title = py_strip (or_empty form_title);
          new_due = or_none (py_strip (or_empty form_due))
      in if new_title = [] then (ValidationError, d)
         else
           (case fetch_task d task_id of
              None \<Rightarrow> (NotFound, d)
            | Some t \<Rightarrow>
                let old_title = t_title t;
                    old_due = t_due_date t;
                    d1 = update_tasks (Some task_id)
                           (\<lambda>r. r\<lparr>t_title := new_title, t_due_date := new_due,
                                  t_updated_at := ts\<rparr>) d
                in (Ok, log_event ''edit'' (Some task_id)
                          [(''before_title'', JStr old_title), (''after_title'', JStr new_title),
                           (''before_due'', json_text old_due), (''after_due'', json_text new_due)]
                          now d1)))"

definition delete_task :: "int \<Rightarrow> string \<Rightarrow> string \<Rightarrow> db \<Rightarrow> outcome \<times> db" where
  "delete_task task_id ts now d =
     (case fetch_task d task_id of
        None \<Rightarrow> (NotFound, d)
      | Some t \<Rightarrow>
          if t_deleted t = 1 then (AlreadyDeleted, d)
          else
            let d1 = update_tasks (Some task_id)
                       (\<lambda>r. r\<lparr>t_deleted := 1, t_updated_at := ts\<rparr>) d
            in (Ok, log_event ''delete'' (Some task_id)
                      [(''title'', JStr (t_title t)), (''was_done'', JInt (t_done t)),
                       (''due_date'', json_text (t_due_date t))]
                      now d1))"

definition restore_task :: "int \<Rightarrow> string \<Rightarrow> string \<Rightarrow> db \<Rightarrow> outcome \<times> db" where
  "restore_task task_id ts now d =
     (case fetch_task d task_id of
        None \<Rightarrow> (NotFound, d)
      | Some t \<Rightarrow>
          if t_deleted t = 0 then (NotDeleted, d)
          else
            let d1 = update_tasks (Some task_id)
                       (\<lambda>r. r\<lparr>t_deleted := 0, t_updated_at := ts\<rparr>) d
            in (Ok, log_event ''restore'' (Some task_id)
                      [(''title'', JStr (t_title t)), (''due_date'', json_text (t_due_date t))]
                      now d1))"

section \<open>Undo\<close>

definition undo_edit_update :: "int option \<Rightarrow> jval \<Rightarrow> jval \<Rightarrow> string \<Rightarrow> db \<Rightarrow> exn + db" where
  \<comment> \<open>\<open>UPDATE tasks SET title=?, due_date=?, updated_at=? WHERE id=?\<close>: \<open>title\<close> is
      NOT NULL, so writing NULL into a matching row raises IntegrityError.\<close>
  "undo_edit_update k before_title before_due ts d =
     (case sql_text before_title of
        None \<Rightarrow> if filter (where_id k) (tasks d) = [] then Inr d else Inl IntegrityError
      | Some s \<Rightarrow>
          Inr (update_tasks k
                 (\<lambda>r. r\<lparr>t_title := s, t_due_date := sql_text before_due, t_updated_at := ts\<rparr>) d))"

definition apply_inverse :: "event \<Rightarrow> string \<Rightarrow> db \<Rightarrow> exn + db" where
  \<comment> \<open>the \<open>try\<close> block of \<open>undo_last\<close>; \<open>Inl Unsupported\<close> is its \<open>else\<close> branch\<close>
  "apply_inverse ev ts d =
     (let action = e_action ev; task_id = e_task_id ev; p = e_payload ev
      in if action = ''create'' then Inr (delete_tasks task_id d)
         else if action = ''toggle'' then
           (case py_getitem p ''before_done'' of
              Inl x \<Rightarrow> Inl x
            | Inr v \<Rightarrow>
                (case py_int v of
                   Inl x \<Rightarrow> Inl x
                 | Inr before_done \<Rightarrow>
                     Inr (update_tasks task_id
                            (\<lambda>r. r\<lparr>t_done := before_done, t_updated_at := ts\<rparr>) d)))
         else if action = ''edit'' then
           undo_edit_update task_id (py_get p ''before_title'') (py_get p ''before_due'') ts d
         else if action = ''delete'' then
           Inr (update_tasks task_id (\<lambda>r. r\<lparr>t_deleted := 0, t_updated_at := ts\<rparr>) d)
         else if action = ''restore'' then
           Inr (update_tasks task_id (\<lambda>r. r\<lparr>t_deleted := 1, t_updated_at := ts\<rparr>) d)
         else Inl Unsupported)"

definition undo_last :: "string \<Rightarrow> db \<Rightarrow> outcome \<times> db" where
  "undo_last ts d =
     (case last_event d of
        None \<Rightarrow> (NothingToUndo, d)
      | Some ev \<Rightarrow>
          (case apply_inverse ev ts d of
             Inl Unsupported \<Rightarrow> (UndoUnsupported, d)
           | Inl _ \<Rightarrow> (UndoFailed, d)
           | Inr d1 \<Rightarrow> (Undone, delete_event (e_id ev) d1)))"

section \<open>The listing\<close>

datatype badge = Overdue | DueToday | Scheduled

definition where_clause :: "string \<Rightarrow> task \<Rightarrow> bool" where
  "where_clause shown r =
     (if shown = ''all'' then t_deleted r = 0
      else if shown = ''completed'' then t_deleted r = 0 \<and> t_done r = 1
      else if shown = ''deleted'' then t_deleted r = 1
      else t_deleted r = 0 \<and> t_done r = 0)"

definition undated :: "task \<Rightarrow> bool" where
  \<comment> \<open>\<open>due_date IS NULL OR due_date=''\<close>\<close>
  "undated r = (t_due_date r = None \<or> t_due_date r = Some [])"

definition due_le :: "task \<Rightarrow> task \<Rightarrow> bool" where
  \<comment> \<open>row \<open>a\<close> may stand before row \<open>b\<close> under
      \<open>ORDER BY CASE WHEN due_date IS NULL OR due_date='' THEN 1 ELSE 0 END,
      due_date ASC, updated_at DESC\<close>; NULL sorts before every string.\<close>
  "due_le a b =
     (let ka = (if undated a then 1 else 0 :: nat); kb = (if undated b then 1 else 0 :: nat)
      in ka < kb \<or>
         (ka = kb \<and>
          (t_due_date a < t_due_date b \<or>
           (t_due_date a = t_due_date b \<and> t_updated_at b \<le> t_updated_at a))))"

definition recent_le :: "task \<Rightarrow> task \<Rightarrow> bool" where
  \<comment> \<open>\<open>ORDER BY updated_at DESC\<close>\<close>
  "recent_le a b = (t_updated_at b \<le> t_updated_at a)"

fun insert_row :: "(task \<Rightarrow> task \<Rightarrow> bool) \<Rightarrow> task \<Rightarrow> task list \<Rightarrow> task list" where
  "insert_row le x [] = [x]"
| "insert_row le x (y # ys) = (if le x y then x # y # ys else y # insert_row le x ys)"

definition order_rows :: "(task \<Rightarrow> task \<Rightarrow> bool) \<Rightarrow> task list \<Rightarrow> task list" where
  \<comment> \<open>Rows that tie on every term of ORDER BY come in an order SQL leaves open; the
      model keeps them in table order.\<close>
  "order_rows le rows = foldr (insert_row le) rows []"

definition order_by :: "string \<Rightarrow> task list \<Rightarrow> task list" where
  "order_by sorting rows =
     (if sorting = ''due'' then order_rows due_le rows else order_rows recent_le rows)"

definition badge_of :: "task \<Rightarrow> string \<Rightarrow> badge option" where
  \<comment> \<open>\<open>t.get("due_date")\<close> is falsy for \<open>None\<close> and for the empty string.\<close>
  "badge_of t today =
     (if t_deleted t = 0 \<and> t_done t = 0 then
        (case t_due_date t of
           None \<Rightarrow> None
         | Some due \<Rightarrow>
             if due = [] then None
             else if due < today then Some Overdue
             else if due = today then Some DueToday
             else Some Scheduled)
      else None)"

definition select_tasks :: "string option \<Rightarrow> string option \<Rightarrow> db \<Rightarrow> task list" where
  \<comment> \<open>\<open>SELECT * FROM tasks {where} {order}\<close> for the query parameters of the request\<close>
  "select_tasks show_arg sort_arg d =
     order_by (args_get sort_arg ''recent'')
       (filter (where_clause (args_get show_arg ''active'')) (tasks d))"

definition index ::
  "string option \<Rightarrow> string option \<Rightarrow> string \<Rightarrow> db
     \<Rightarrow> (task \<times> badge option) list \<times> (int \<times> string \<times> string) option" where
  \<comment> \<open>what the template gets: the decorated rows, and id, action and created_at of the
      newest event; \<open>today\<close> is \<open>date.today().isoformat()\<close>\<close>
  "index show_arg sort_arg today d =
     (map (\<lambda>r. (r, badge_of r today)) (select_tasks show_arg sort_arg d),
      map_option (\<lambda>e. (e_id e, e_action e, e_created_at e)) (last_event d))"

abbreviation listing :: "string option \<Rightarrow> string option \<Rightarrow> string \<Rightarrow> db \<Rightarrow> task list" where
  \<comment> \<open>the rows of a listing, in the order shown\<close>
  "listing show_arg sort_arg today d \<equiv> map fst (fst (index show_arg sort_arg today d))"

section \<open>Example states\<close>

text \<open>
  A state that the routes produce: tasks 1, 2 and 4 were created (task 3 was created and
  its creation undone), task 4 was toggled and task 1 deleted last.
\<close>

definition example_db :: db where
  "example_db =
     \<lparr>tasks =
        [\<lparr>t_id = 1, t_title = ''pay rent'', t_due_date = Some ''2025-06-14'', t_done = 0,
          t_deleted = 1, t_created_at = ''2025-06-01T08:00:00Z'',
          t_updated_at = ''2025-06-03T09:30:00Z''\<rparr>,
         \<lparr>t_id = 2, t_title = ''buy milk'', t_due_date = Some ''2025-06-15'', t_done = 0,
          t_deleted = 0, t_created_at = ''2025-06-01T08:05:00Z'',
          t_updated_at = ''2025-06-01T08:05:00Z''\<rparr>,
         \<lparr>t_id = 4, t_title = ''call bob'', t_due_date = None, t_done = 1,
          t_deleted = 0, t_created_at = ''2025-06-02T10:00:00Z'',
          t_updated_at = ''2025-06-02T11:00:00Z''\<rparr>],
      events =
        [\<lparr>e_id = 1, e_action = ''create'', e_task_id = Some 1,
          e_payload = [(''title'', JStr ''pay rent''), (''due_date'', JStr ''2025-06-14'')],
          e_created_at = ''2025-06-01T08:00:00Z''\<rparr>,
         \<lparr>e_id = 2, e_action = ''create'', e_task_id = Some 2,
          e_payload = [(''title'', JStr ''buy milk''), (''due_date'', JStr ''2025-06-15'')],
          e_created_at = ''2025-06-01T08:05:00Z''\<rparr>,
         \<lparr>e_id = 5, e_action = ''create'', e_task_id = Some 4,
          e_payload = [(''title'', JStr ''call bob''), (''due_date'', JNull)],
          e_created_at = ''2025-06-02T10:00:00Z''\<rparr>,
         \<lparr>e_id = 6, e_action = ''toggle'', e_task_id = Some 4,
          e_payload = [(''before_done'', JInt 0), (''after_done'', JInt 1)],
          e_created_at = ''2025-06-02T11:00:00Z''\<rparr>,
         \<lparr>e_id = 7, e_action = ''delete'', e_task_id = Some 1,
          e_payload = [(''title'', JStr ''pay rent''), (''was_done'', JInt 0),
                       (''due_date'', JStr ''2025-06-14'')],
          e_created_at = ''2025-06-03T09:30:00Z''\<rparr>],
      tasks_seq = 4, events_seq = 7\<rparr>"

text \<open>Four open tasks: two due on the same day, one due later, one without a due date.\<close>

definition due_db :: db where
  "due_db =
     \<lparr>tasks =
        [\<lparr>t_id = 1, t_title = ''file taxes'', t_due_date = Some ''2025-06-01'', t_done = 0,
          t_deleted = 0, t_created_at = ''2025-01-01T08:00:00Z'',
          t_updated_at = ''2025-01-09T08:00:00Z''\<rparr>,
         \<lparr>t_id = 2, t_title = ''renew pass'', t_due_date = Some ''2025-01-01'', t_done = 0,
          t_deleted = 0, t_created_at = ''2025-01-02T08:00:00Z'',
          t_updated_at = ''2025-01-02T08:00:00Z''\<rparr>,
         \<lparr>t_id = 3, t_title = ''tidy desk'', t_due_date = None, t_done = 0,
          t_deleted = 0, t_created_at = ''2025-01-03T08:00:00Z'',
          t_updated_at = ''2025-01-08T08:00:00Z''\<rparr>,
         \<lparr>t_id = 4, t_title = ''book train'', t_due_date = Some ''2025-01-01'', t_done = 0,
          t_deleted = 0, t_created_at = ''2025-01-04T08:00:00Z'',
          t_updated_at = ''2025-01-05T08:00:00Z''\<rparr>],
      events = [], tasks_seq = 4, events_seq = 0\<rparr>"


text \<open>A log whose newest event is a toggle of task 1, and no row for task 1.\<close>

definition stale_db :: db where
  "stale_db =
     \<lparr>tasks = [],
      events =
        [\<lparr>e_id = 2, e_action = ''toggle'', e_task_id = Some 1,
          e_payload = [(''before_done'', JInt 0), (''after_done'', JInt 1)],
          e_created_at = ''2025-06-02T11:00:00Z''\<rparr>],
      tasks_seq = 1, events_seq = 2\<rparr>"

section \<open>Facts about the helpers\<close>

lemma py_strip_empty_iff: "py_strip s = [] \<longleftrightarrow> (\<forall>c \<in> set s. py_isspace c)"
proof
  assume "py_strip s = []"
  then have "dropWhile py_isspace (rev (dropWhile py_isspace s)) = []"
    by (simp add: py_strip_def)
  then have "\<forall>c \<in> set (rev (dropWhile py_isspace s)). py_isspace c"
    by simp
  then have "dropWhile py_isspace s = []"
    by (metis hd_dropWhile list.set_sel(1) set_rev)
  then show "\<forall>c \<in> set s. py_isspace c"
    by simp
next
  assume "\<forall>c \<in> set s. py_isspace c"
  then show "py_strip s = []"
    by (auto simp: py_strip_def dest: set_dropWhileD)
qed

lemma where_id_Some: "where_id (Some i) r = (t_id r = i)"
  by (simp add: where_id_def)

lemma fetch_task_None_iff: "fetch_task d i = None \<longleftrightarrow> (\<forall>r \<in> set (tasks d). t_id r \<noteq> i)"
  by (auto simp: fetch_task_def find_None_iff)

lemma find_map_upd:
  "find (\<lambda>r. t_id r = i) xs = Some t \<Longrightarrow> (\<And>r. t_id (f r) = t_id r) \<Longrightarrow>
   find (\<lambda>r. t_id r = i) (map (\<lambda>r. if t_id r = i then f r else r) xs) = Some (f t)"
  by (induction xs) (auto split: if_splits)

lemma fold_max_ge: "(a::int) \<le> fold max xs a \<and> (\<forall>x \<in> set xs. x \<le> fold max xs a)"
proof (induction xs arbitrary: a)
  case Nil
  then show ?case by simp
next
  case (Cons y ys)
  from Cons.IH [of "max y a"] show ?case by auto
qed

text \<open>A new id is above every id in the table: ids are not reused.\<close>

lemma new_rowid_gt: "x \<in> set ids \<Longrightarrow> x < new_rowid s ids"
proof (cases ids)
  case Nil
  assume "x \<in> set ids"
  with Nil show ?thesis by simp
next
  case (Cons i rest)
  assume "x \<in> set ids"
  with Cons fold_max_ge [of i rest] have "x \<le> fold max rest i" by auto
  with Cons show ?thesis by (simp add: new_rowid_def)
qed

section \<open>One task at the end of the table\<close>

text \<open>
  The steps of a route on a table whose last row \<open>r\<close> is the only one with id \<open>i\<close>,
  and of \<open>undo_last\<close> on a log whose last event has the greatest id.
\<close>

lemma find_last_fresh:
  "\<forall>x \<in> set T. t_id x \<noteq> i \<Longrightarrow> t_id r = i \<Longrightarrow> find (\<lambda>r. t_id r = i) (T @ [r]) = Some r"
  by (induction T) auto

lemma map_fresh:
  "\<forall>x \<in> set T. t_id x \<noteq> i \<Longrightarrow> map (\<lambda>r. if t_id r = i then f r else r) T = T"
  by (induction T) auto

lemma filter_fresh:
  "\<forall>x \<in> set T. t_id x \<noteq> i \<Longrightarrow> filter (\<lambda>r. t_id r \<noteq> i) T = T"
  by (induction T) auto

lemma fetch_task_last:
  "tasks s = T @ [r] \<Longrightarrow> \<forall>x \<in> set T. t_id x \<noteq> i \<Longrightarrow> t_id r = i \<Longrightarrow> fetch_task s i = Some r"
  by (simp add: fetch_task_def find_last_fresh)

lemma update_tasks_last:
  "tasks s = T @ [r] \<Longrightarrow> \<forall>x \<in> set T. t_id x \<noteq> i \<Longrightarrow> t_id r = i \<Longrightarrow>
   tasks (update_tasks (Some i) f s) = T @ [f r]"
  by (simp add: update_tasks_def where_id_Some map_fresh)

lemma update_tasks_events: "events (update_tasks k f s) = events s"
  by (simp add: update_tasks_def)

lemma newest_snoc: "\<forall>x \<in> set es. e_id x < e_id e \<Longrightarrow> newest (es @ [e]) = Some e"
  by (induction es) (auto split: option.splits)

lemma last_event_snoc:
  "events s = es @ [e] \<Longrightarrow> \<forall>x \<in> set es. e_id x < e_id e \<Longrightarrow> last_event s = Some e"
  by (simp add: last_event_def newest_snoc)

lemma delete_event_snoc:
  "events s = es @ [e] \<Longrightarrow> \<forall>x \<in> set es. e_id x < e_id e \<Longrightarrow>
   events (delete_event (e_id e) s) = es \<and> tasks (delete_event (e_id e) s) = tasks s"
proof -
  assume a: "events s = es @ [e]" and b: "\<forall>x \<in> set es. e_id x < e_id e"
  from b have "filter (\<lambda>x. e_id x \<noteq> e_id e) es = es"
    by (induction es) auto
  with a show ?thesis by (simp add: delete_event_def)
qed

lemma add_task_step:
  assumes "py_strip (or_empty ft) \<noteq> []"
  shows "fst (add_task ft fd ts now s) = Ok \<and>
         (\<exists>r. tasks (snd (add_task ft fd ts now s)) = tasks s @ [r] \<and>
              t_id r = new_rowid (tasks_seq s) (map t_id (tasks s)) \<and> t_deleted r = 0) \<and>
         (\<exists>e. events (snd (add_task ft fd ts now s)) = events s @ [e] \<and>
              (\<forall>x \<in> set (events s). e_id x < e_id e) \<and> e_action e = ''create'' \<and>
              e_task_id e = Some (new_rowid (tasks_seq s) (map t_id (tasks s))))"
  using assms by (simp add: add_task_def Let_def log_event_def new_rowid_gt)

lemma edit_task_step:
  assumes "py_strip (or_empty ft) \<noteq> []" and "tasks s = T @ [r]"
    and "\<forall>x \<in> set T. t_id x \<noteq> i" and "t_id r = i"
  shows "fst (edit_task i ft fd ts now s) = Ok \<and>
         (\<exists>r'. tasks (snd (edit_task i ft fd ts now s)) = T @ [r'] \<and> t_id r' = i \<and>
               t_deleted r' = t_deleted r) \<and>
         (\<exists>e. events (snd (edit_task i ft fd ts now s)) = events s @ [e] \<and>
              (\<forall>x \<in> set (events s). e_id x < e_id e) \<and> e_action e = ''edit'' \<and>
              e_task_id e = Some i \<and>
              (\<exists>old. map_of (e_payload e) ''before_title'' = Some (JStr old)))"
  using assms fetch_task_last [OF assms(2,3,4)] update_tasks_last [OF assms(2,3,4)]
  by (simp add: edit_task_def Let_def log_event_def new_rowid_gt update_tasks_events)

lemma toggle_task_step:
  assumes "t_deleted r \<noteq> 1" and "tasks s = T @ [r]"
    and "\<forall>x \<in> set T. t_id x \<noteq> i" and "t_id r = i"
  shows "fst (toggle_task i ts now s) = Ok \<and>
         (\<exists>r'. tasks (snd (toggle_task i ts now s)) = T @ [r'] \<and> t_id r' = i \<and>
               t_deleted r' = t_deleted r) \<and>
         (\<exists>e. events (snd (toggle_task i ts now s)) = events s @ [e] \<and>
              (\<forall>x \<in> set (events s). e_id x < e_id e) \<and> e_action e = ''toggle'' \<and>
              e_task_id e = Some i \<and>
              (\<exists>b. map_of (e_payload e) ''before_done'' = Some (JInt b)))"
  using assms fetch_task_last [OF assms(2,3,4)] update_tasks_last [OF assms(2,3,4)]
  by (simp add: toggle_task_def Let_def log_event_def new_rowid_gt update_tasks_events)

lemma delete_task_step:
  assumes "t_deleted r \<noteq> 1" and "tasks s = T @ [r]"
    and "\<forall>x \<in> set T. t_id x \<noteq> i" and "t_id r = i"
  shows "fst (delete_task i ts now s) = Ok \<and>
         (\<exists>r'. tasks (snd (delete_task i ts now s)) = T @ [r'] \<and> t_id r' = i) \<and>
         (\<exists>e. events (snd (delete_task i ts now s)) = events s @ [e] \<and>
              (\<forall>x \<in> set (events s). e_id x < e_id e) \<and> e_action e = ''delete'' \<and>
              e_task_id e = Some i)"
  using assms fetch_task_last [OF assms(2,3,4)] update_tasks_last [OF assms(2,3,4)]
  by (simp add: delete_task_def Let_def log_event_def new_rowid_gt update_tasks_events)

lemma undo_last_pop:
  assumes ev: "events s = es @ [e]" and ord: "\<forall>x \<in> set es. e_id x < e_id e"
    and ts: "tasks s = T @ [r]" and fresh: "\<forall>x \<in> set T. t_id x \<noteq> i" and r: "t_id r = i"
    and k: "e_task_id e = Some i"
    and kind: "e_action e = ''toggle'' \<and> (\<exists>b. map_of (e_payload e) ''before_done'' = Some (JInt b))
             \<or> e_action e = ''edit'' \<and> (\<exists>old. map_of (e_payload e) ''before_title'' = Some (JStr old))
             \<or> e_action e = ''delete''"
  shows "fst (undo_last now s) = Undone \<and> events (snd (undo_last now s)) = es \<and>
         (\<exists>r'. tasks (snd (undo_last now s)) = T @ [r'] \<and> t_id r' = i)"
proof -
  note le = last_event_snoc [OF ev ord]
  have "\<exists>f. apply_inverse e now s = Inr (update_tasks (Some i) f s) \<and> (\<forall>x. t_id (f x) = t_id x)"
    using kind
  proof (elim disjE conjE exE)
    fix b
    assume "e_action e = ''toggle''" "map_of (e_payload e) ''before_done'' = Some (JInt b)"
    then have "apply_inverse e now s =
        Inr (update_tasks (Some i) (\<lambda>r. r\<lparr>t_done := b, t_updated_at := now\<rparr>) s)"
      by (simp add: apply_inverse_def py_getitem_def py_int_def k)
    then show ?thesis
      by (intro exI [of _ "\<lambda>r. r\<lparr>t_done := b, t_updated_at := now\<rparr>"]) simp
  next
    fix old
    assume "e_action e = ''edit''" "map_of (e_payload e) ''before_title'' = Some (JStr old)"
    then have "apply_inverse e now s =
        Inr (update_tasks (Some i)
               (\<lambda>r. r\<lparr>t_title := old, t_due_date := sql_text (py_get (e_payload e) ''before_due''),
                      t_updated_at := now\<rparr>) s)"
      by (simp add: apply_inverse_def undo_edit_update_def py_get_def sql_text_def k)
    then show ?thesis
      by (intro exI [of _ "\<lambda>r. r\<lparr>t_title := old,
             t_due_date := sql_text (py_get (e_payload e) ''before_due''), t_updated_at := now\<rparr>"]) simp
  next
    assume "e_action e = ''delete''"
    then have "apply_inverse e now s =
        Inr (update_tasks (Some i) (\<lambda>r. r\<lparr>t_deleted := 0, t_updated_at := now\<rparr>) s)"
      by (simp add: apply_inverse_def k)
    then show ?thesis
      by (intro exI [of _ "\<lambda>r. r\<lparr>t_deleted := 0, t_updated_at := now\<rparr>"]) simp
  qed
  then obtain f where ai: "apply_inverse e now s = Inr (update_tasks (Some i) f s)"
    and fid: "\<And>x. t_id (f x) = t_id x" by blast
  have u: "undo_last now s = (Undone, delete_event (e_id e) (update_tasks (Some i) f s))"
    by (simp add: undo_last_def le ai)
  have ev': "events (update_tasks (Some i) f s) = es @ [e]"
    by (simp add: update_tasks_events ev)
  from delete_event_snoc [OF ev' ord] update_tasks_last [OF ts fresh r, of f] fid r
  show ?thesis by (simp add: u)
qed

lemma undo_last_create:
  assumes ev: "events s = es @ [e]" and ord: "\<forall>x \<in> set es. e_id x < e_id e"
    and ts: "tasks s = T @ [r]" and fresh: "\<forall>x \<in> set T. t_id x \<noteq> i" and r: "t_id r = i"
    and k: "e_task_id e = Some i" and a: "e_action e = ''create''"
  shows "fst (undo_last now s) = Undone \<and> events (snd (undo_last now s)) = es \<and>
         tasks (snd (undo_last now s)) = T"
proof -
  note le = last_event_snoc [OF ev ord]
  have u: "undo_last now s = (Undone, delete_event (e_id e) (delete_tasks (Some i) s))"
    by (simp add: undo_last_def le apply_inverse_def a k)
  have ev': "events (delete_tasks (Some i) s) = es @ [e]"
    by (simp add: delete_tasks_def ev)
  have "tasks (delete_tasks (Some i) s) = T"
    by (simp add: delete_tasks_def where_id_Some ts r filter_fresh [OF fresh])
  with delete_event_snoc [OF ev' ord] show ?thesis by (simp add: u)
qed

section \<open>Ordering of a listing\<close>

lemma set_insert_row: "set (insert_row le x xs) = insert x (set xs)"
  by (induction xs) auto

lemma set_order_rows: "set (order_rows le xs) = set xs"
  by (induction xs) (simp_all add: order_rows_def set_insert_row)

lemma sorted_insert_row:
  assumes total: "\<And>a b. le a b \<or> le b a" and trans: "\<And>a b c. le a b \<Longrightarrow> le b c \<Longrightarrow> le a c"
  shows "sorted_wrt le xs \<Longrightarrow> sorted_wrt le (insert_row le x xs)"
proof (induction xs)
  case Nil
  then show ?case by simp
next
  case (Cons y ys)
  show ?case
  proof (cases "le x y")
    case True
    with Cons.prems trans show ?thesis by auto
  next
    case False
    with total have "le y x" by blast
    with Cons False show ?thesis by (auto simp: set_insert_row)
  qed
qed

lemma sorted_order_rows:
  assumes "\<And>a b. le a b \<or> le b a" and "\<And>a b c. le a b \<Longrightarrow> le b c \<Longrightarrow> le a c"
  shows "sorted_wrt le (order_rows le xs)"
proof (induction xs)
  case Nil
  then show ?case by (simp add: order_rows_def)
next
  case (Cons x xs)
  have "order_rows le (x # xs) = insert_row le x (order_rows le xs)"
    by (simp add: order_rows_def)
  with Cons sorted_insert_row [of le, OF assms] show ?case by simp
qed

lemma recent_le_total: "recent_le a b \<or> recent_le b a"
  by (auto simp: recent_le_def)

lemma recent_le_trans: "recent_le a b \<Longrightarrow> recent_le b c \<Longrightarrow> recent_le a c"
  by (auto simp: recent_le_def)



lemma sorted_recent: "sorted_wrt recent_le (order_rows recent_le xs)"
  using sorted_order_rows [of recent_le] recent_le_total recent_le_trans by blast


lemma listing_eq: "listing show_arg sort_arg today d = select_tasks show_arg sort_arg d"
  by (simp add: index_def comp_def)

lemma set_select_tasks:
  "set (select_tasks show_arg sort_arg d) =
     {r \<in> set (tasks d). where_clause (args_get show_arg ''active'') r}"
  by (simp add: select_tasks_def order_by_def set_order_rows)

section \<open>Undo of an event whose task row is gone\<close>

lemma update_tasks_no_row:
  "filter (where_id k) (tasks d) = [] \<Longrightarrow> update_tasks k f d = d"
proof -
  assume "filter (where_id k) (tasks d) = []"
  then have "\<forall>r \<in> set (tasks d). \<not> where_id k r"
    by (simp add: filter_empty_conv)
  then have "map (\<lambda>r. if where_id k r then f r else r) (tasks d) = tasks d"
    by (induction "tasks d") (auto intro: map_idI)
  then show ?thesis by (simp add: update_tasks_def)
qed

text \<open>
  For each of the four kinds of event that \<open>undo_last\<close> reverses with an UPDATE: when no
  row has the event's task id, the UPDATE changes nothing and raises nothing, and the
  event is removed.
\<close>

lemma undo_last_no_row:
  assumes "last_event d = Some ev" and "filter (where_id (e_task_id ev)) (tasks d) = []"
    and "e_action ev = ''toggle'' \<and> (\<exists>b. map_of (e_payload ev) ''before_done'' = Some (JInt b))
         \<or> e_action ev = ''edit'' \<or> e_action ev = ''delete'' \<or> e_action ev = ''restore''"
  shows "undo_last ts d = (Undone, delete_event (e_id ev) d)"
proof -
  have "apply_inverse ev ts d = Inr d"
    using assms(3)
  proof (elim disjE conjE exE)
    fix b
    assume "e_action ev = ''toggle''" "map_of (e_payload ev) ''before_done'' = Some (JInt b)"
    then show ?thesis
      by (simp add: apply_inverse_def py_getitem_def py_int_def update_tasks_no_row [OF assms(2)])
  next
    assume "e_action ev = ''edit''"
    then show ?thesis
      by (simp add: apply_inverse_def undo_edit_update_def Let_def assms(2)
            update_tasks_no_row [OF assms(2)] split: option.split)
  next
    assume "e_action ev = ''delete''"
    then show ?thesis
      by (simp add: apply_inverse_def update_tasks_no_row [OF assms(2)])
  next
    assume "e_action ev = ''restore''"
    then show ?thesis
      by (simp add: apply_inverse_def update_tasks_no_row [OF assms(2)])
  qed
  with assms(1) show ?thesis by (simp add: undo_last_def)
qed

text \<open>
  Claim C1. The claim: when the newest event is a toggle, edit, delete or restore whose
  task row no longer exists, undo fails with UndoFailed and keeps the event. In
  \<open>stale_db\<close> the newest event is a toggle of task 1 and no row has id 1; \<open>undo_last\<close>
  ends with "Undid last action." and the event is gone. No task is changed.
\<close>

theorem undo_stale_toggle:
  "fetch_task stale_db 1 = None \<and>
   map_option e_action (last_event stale_db) = Some ''toggle'' \<and>
   map_option e_task_id (last_event stale_db) = Some (Some 1) \<and>
   undo_last ''2025-06-04T07:00:00Z'' stale_db = (Undone, stale_db\<lparr>events := []\<rparr>)"
  by (simp add: stale_db_def fetch_task_def undo_last_def last_event_def apply_inverse_def
        py_getitem_def py_int_def update_tasks_def delete_event_def)

section \<open>The chain of undos\<close>

text \<open>
  Claim C2. From any state, create a task (its title not blank), then edit it (the new
  title not blank), toggle it and delete it; every step succeeds. Four undos then
  succeed, and afterwards no row has the id of the created task, the table of tasks is
  the one before the create, and so is the log of events.
\<close>

theorem undo_chain:
  assumes t1: "py_strip (or_empty form_title) \<noteq> []" and t2: "py_strip (or_empty new_title) \<noteq> []"
  shows
    "let i = new_rowid (tasks_seq d) (map t_id (tasks d));
         d1 = snd (add_task form_title form_due ts1 now1 d);
         d2 = snd (edit_task i new_title new_due ts2 now2 d1);
         d3 = snd (toggle_task i ts3 now3 d2);
         d4 = snd (delete_task i ts4 now4 d3);
         d5 = snd (undo_last ts5 d4);
         d6 = snd (undo_last ts6 d5);
         d7 = snd (undo_last ts7 d6);
         d8 = snd (undo_last ts8 d7)
     in fst (add_task form_title form_due ts1 now1 d) = Ok \<and> fetch_task d1 i \<noteq> None \<and>
        fst (edit_task i new_title new_due ts2 now2 d1) = Ok \<and>
        fst (toggle_task i ts3 now3 d2) = Ok \<and>
        fst (delete_task i ts4 now4 d3) = Ok \<and>
        fst (undo_last ts5 d4) = Undone \<and> fst (undo_last ts6 d5) = Undone \<and>
        fst (undo_last ts7 d6) = Undone \<and> fst (undo_last ts8 d7) = Undone \<and>
        fetch_task d8 i = None \<and> tasks d8 = tasks d \<and> events d8 = events d"
proof -
  define i where "i = new_rowid (tasks_seq d) (map t_id (tasks d))"
  define d1 where "d1 = snd (add_task form_title form_due ts1 now1 d)"
  define d2 where "d2 = snd (edit_task i new_title new_due ts2 now2 d1)"
  define d3 where "d3 = snd (toggle_task i ts3 now3 d2)"
  define d4 where "d4 = snd (delete_task i ts4 now4 d3)"
  define d5 where "d5 = snd (undo_last ts5 d4)"
  define d6 where "d6 = snd (undo_last ts6 d5)"
  define d7 where "d7 = snd (undo_last ts7 d6)"
  define d8 where "d8 = snd (undo_last ts8 d7)"
  have fresh: "\<forall>x \<in> set (tasks d). t_id x \<noteq> i"
    using new_rowid_gt [of _ "map t_id (tasks d)" "tasks_seq d"] by (fastforce simp: i_def)
  from add_task_step [OF t1, of form_due ts1 now1 d]
  obtain r1 e1 where o1: "fst (add_task form_title form_due ts1 now1 d) = Ok"
    and T1: "tasks d1 = tasks d @ [r1]" "t_id r1 = i" "t_deleted r1 = 0"
    and E1: "events d1 = events d @ [e1]" "\<forall>x \<in> set (events d). e_id x < e_id e1"
            "e_action e1 = ''create''" "e_task_id e1 = Some i"
    unfolding d1_def i_def by blast
  from edit_task_step [OF t2 T1(1) fresh T1(2), of new_due ts2 now2]
  obtain r2 e2 where o2: "fst (edit_task i new_title new_due ts2 now2 d1) = Ok"
    and T2: "tasks d2 = tasks d @ [r2]" "t_id r2 = i" "t_deleted r2 = t_deleted r1"
    and E2: "events d2 = events d1 @ [e2]" "\<forall>x \<in> set (events d1). e_id x < e_id e2"
            "e_action e2 = ''edit''" "e_task_id e2 = Some i"
            "\<exists>old. map_of (e_payload e2) ''before_title'' = Some (JStr old)"
    unfolding d2_def by blast
  have nd2: "t_deleted r2 \<noteq> 1" using T2(3) T1(3) by simp
  from toggle_task_step [OF nd2 T2(1) fresh T2(2), of ts3 now3]
  obtain r3 e3 where o3: "fst (toggle_task i ts3 now3 d2) = Ok"
    and T3: "tasks d3 = tasks d @ [r3]" "t_id r3 = i" "t_deleted r3 = t_deleted r2"
    and E3: "events d3 = events d2 @ [e3]" "\<forall>x \<in> set (events d2). e_id x < e_id e3"
            "e_action e3 = ''toggle''" "e_task_id e3 = Some i"
            "\<exists>b. map_of (e_payload e3) ''before_done'' = Some (JInt b)"
    unfolding d3_def by blast
  have nd3: "t_deleted r3 \<noteq> 1" using T3(3) nd2 by simp
  from delete_task_step [OF nd3 T3(1) fresh T3(2), of ts4 now4]
  obtain r4 e4 where o4: "fst (delete_task i ts4 now4 d3) = Ok"
    and T4: "tasks d4 = tasks d @ [r4]" "t_id r4 = i"
    and E4: "events d4 = events d3 @ [e4]" "\<forall>x \<in> set (events d3). e_id x < e_id e4"
            "e_action e4 = ''delete''" "e_task_id e4 = Some i"
    unfolding d4_def by blast
  from undo_last_pop [OF E4(1,2) T4(1) fresh T4(2) E4(4), of ts5] E4(3)
  obtain r5 where o5: "fst (undo_last ts5 d4) = Undone"
    and E5: "events d5 = events d3" and T5: "tasks d5 = tasks d @ [r5]" "t_id r5 = i"
    unfolding d5_def by blast
  have E5': "events d5 = events d2 @ [e3]" using E5 E3(1) by simp
  from undo_last_pop [OF E5' E3(2) T5(1) fresh T5(2) E3(4), of ts6] E3(3,5)
  obtain r6 where o6: "fst (undo_last ts6 d5) = Undone"
    and E6: "events d6 = events d2" and T6: "tasks d6 = tasks d @ [r6]" "t_id r6 = i"
    unfolding d6_def by blast
  have E6': "events d6 = events d1 @ [e2]" using E6 E2(1) by simp
  from undo_last_pop [OF E6' E2(2) T6(1) fresh T6(2) E2(4), of ts7] E2(3,5)
  obtain r7 where o7: "fst (undo_last ts7 d6) = Undone"
    and E7: "events d7 = events d1" and T7: "tasks d7 = tasks d @ [r7]" "t_id r7 = i"
    unfolding d7_def by blast
  have E7': "events d7 = events d @ [e1]" using E7 E1(1) by simp
  from undo_last_create [OF E7' E1(2) T7(1) fresh T7(2) E1(4,3), of ts8]
  have o8: "fst (undo_last ts8 d7) = Undone"
    and E8: "events d8 = events d" and T8: "tasks d8 = tasks d"
    unfolding d8_def by auto
  have f1: "fetch_task d1 i \<noteq> None"
    using fetch_task_last [OF T1(1) fresh T1(2)] by simp
  have f8: "fetch_task d8 i = None"
    using fresh by (simp add: fetch_task_None_iff T8)
  show ?thesis
    unfolding Let_def
    using o1 o2 o3 o4 o5 o6 o7 o8 f1 f8 T8 E8
    unfolding d8_def d7_def d6_def d5_def d4_def d3_def d2_def d1_def i_def
    by simp
qed

theorem undo_chain_witness:
  "py_strip (or_empty (Some '' write report '')) \<noteq> [] \<and>
   py_strip (or_empty (Some ''write the report'')) \<noteq> [] \<and>
   new_rowid (tasks_seq example_db) (map t_id (tasks example_db)) = 5 \<and>
   (let d1 = snd (add_task (Some '' write report '') (Some ''2025-06-20'')
                    ''2025-06-04T07:00:00Z'' ''2025-06-04T07:00:00Z'' example_db);
        d2 = snd (edit_task 5 (Some ''write the report'') None
                    ''2025-06-04T07:01:00Z'' ''2025-06-04T07:01:00Z'' d1);
        d3 = snd (toggle_task 5 ''2025-06-04T07:02:00Z'' ''2025-06-04T07:02:00Z'' d2);
        d4 = snd (delete_task 5 ''2025-06-04T07:03:00Z'' ''2025-06-04T07:03:00Z'' d3)
    in fetch_task d4 5 =
         Some \<lparr>t_id = 5, t_title = ''write the report'', t_due_date = None, t_done = 1,
               t_deleted = 1, t_created_at = ''2025-06-04T07:00:00Z'',
               t_updated_at = ''2025-06-04T07:03:00Z''\<rparr> \<and>
       map e_action (events d4) = [''create'', ''create'', ''create'', ''toggle'', ''delete'',
          ''create'', ''edit'', ''toggle'', ''delete'']) \<and>
   (let i = new_rowid (tasks_seq example_db) (map t_id (tasks example_db));
        d1 = snd (add_task (Some '' write report '') (Some ''2025-06-20'')
                    ''2025-06-04T07:00:00Z'' ''2025-06-04T07:00:00Z'' example_db);
        d2 = snd (edit_task i (Some ''write the report'') None
                    ''2025-06-04T07:01:00Z'' ''2025-06-04T07:01:00Z'' d1);
        d3 = snd (toggle_task i ''2025-06-04T07:02:00Z'' ''2025-06-04T07:02:00Z'' d2);
        d4 = snd (delete_task i ''2025-06-04T07:03:00Z'' ''2025-06-04T07:03:00Z'' d3);
        d5 = snd (undo_last ''2025-06-04T07:04:00Z'' d4);
        d6 = snd (undo_last ''2025-06-04T07:05:00Z'' d5);
        d7 = snd (undo_last ''2025-06-04T07:06:00Z'' d6);
        d8 = snd (undo_last ''2025-06-04T07:07:00Z'' d7)
    in fetch_task d8 i = None \<and> tasks d8 = tasks example_db \<and> events d8 = events example_db)"
proof -
  have h1: "py_strip (or_empty (Some '' write report '')) \<noteq> []"
    by (simp add: py_strip_def or_empty_def py_isspace_def)
  have h2: "py_strip (or_empty (Some ''write the report'')) \<noteq> []"
    by (simp add: py_strip_def or_empty_def py_isspace_def)
  have h3: "new_rowid (tasks_seq example_db) (map t_id (tasks example_db)) = 5"
    by (simp add: example_db_def new_rowid_def)
  have h4: "let d1 = snd (add_task (Some '' write report '') (Some ''2025-06-20'')
                    ''2025-06-04T07:00:00Z'' ''2025-06-04T07:00:00Z'' example_db);
        d2 = snd (edit_task 5 (Some ''write the report'') None
                    ''2025-06-04T07:01:00Z'' ''2025-06-04T07:01:00Z'' d1);
        d3 = snd (toggle_task 5 ''2025-06-04T07:02:00Z'' ''2025-06-04T07:02:00Z'' d2);
        d4 = snd (delete_task 5 ''2025-06-04T07:03:00Z'' ''2025-06-04T07:03:00Z'' d3)
    in fetch_task d4 5 =
         Some \<lparr>t_id = 5, t_title = ''write the report'', t_due_date = None, t_done = 1,
               t_deleted = 1, t_created_at = ''2025-06-04T07:00:00Z'',
               t_updated_at = ''2025-06-04T07:03:00Z''\<rparr> \<and>
       map e_action (events d4) = [''create'', ''create'', ''create'', ''toggle'', ''delete'',
          ''create'', ''edit'', ''toggle'', ''delete'']"
    by (simp add: example_db_def add_task_def edit_task_def toggle_task_def delete_task_def
          fetch_task_def update_tasks_def where_id_def log_event_def new_rowid_def Let_def
          py_strip_def or_empty_def or_none_def py_isspace_def json_text_def)
  from undo_chain [OF h1 h2, of example_db "Some ''2025-06-20''"
      "''2025-06-04T07:00:00Z''" "''2025-06-04T07:00:00Z''" None
      "''2025-06-04T07:01:00Z''" "''2025-06-04T07:01:00Z''"
      "''2025-06-04T07:02:00Z''" "''2025-06-04T07:02:00Z''"
      "''2025-06-04T07:03:00Z''" "''2025-06-04T07:03:00Z''"
      "''2025-06-04T07:04:00Z''" "''2025-06-04T07:05:00Z''"
      "''2025-06-04T07:06:00Z''" "''2025-06-04T07:07:00Z''"]
  have "let i = new_rowid (tasks_seq example_db) (map t_id (tasks example_db));
        d1 = snd (add_task (Some '' write report '') (Some ''2025-06-20'')
                    ''2025-06-04T07:00:00Z'' ''2025-06-04T07:00:00Z'' example_db);
        d2 = snd (edit_task i (Some ''write the report'') None
                    ''2025-06-04T07:01:00Z'' ''2025-06-04T07:01:00Z'' d1);
        d3 = snd (toggle_task i ''2025-06-04T07:02:00Z'' ''2025-06-04T07:02:00Z'' d2);
        d4 = snd (delete_task i ''2025-06-04T07:03:00Z'' ''2025-06-04T07:03:00Z'' d3);
        d5 = snd (undo_last ''2025-06-04T07:04:00Z'' d4);
        d6 = snd (undo_last ''2025-06-04T07:05:00Z'' d5);
        d7 = snd (undo_last ''2025-06-04T07:06:00Z'' d6);
        d8 = snd (undo_last ''2025-06-04T07:07:00Z'' d7)
    in fetch_task d8 i = None \<and> tasks d8 = tasks example_db \<and> events d8 = events example_db"
    unfolding Let_def by blast
  with h1 h2 h3 h4 show ?thesis by blast
qed

section \<open>Filter and order of the listing\<close>




section \<open>The badge\<close>

text \<open>
  Claim C4. For a task with \<open>deleted\<close> = 0 and \<open>done\<close> = 0 that has a due date (a
  non-empty string): the badge is Overdue when the due date is before today, DueToday
  when it is today, Scheduled when it is after today. In every other case (\<open>deleted\<close> or
  \<open>done\<close> not 0, or no due date) there is no badge. The badge is computed when the
  listing is read: each row shown is a row of the table, paired with its badge for
  today, and \<open>index\<close> returns no state.
\<close>

theorem badge_of_cases:
  "(t_deleted t = 0 \<and> t_done t = 0 \<and> t_due_date t = Some due \<and> due \<noteq> [] \<and> due < today
      \<longrightarrow> badge_of t today = Some Overdue) \<and>
   (t_deleted t = 0 \<and> t_done t = 0 \<and> t_due_date t = Some due \<and> due \<noteq> [] \<and> due = today
      \<longrightarrow> badge_of t today = Some DueToday) \<and>
   (t_deleted t = 0 \<and> t_done t = 0 \<and> t_due_date t = Some due \<and> due \<noteq> [] \<and> today < due
      \<longrightarrow> badge_of t today = Some Scheduled) \<and>
   (t_deleted t \<noteq> 0 \<or> t_done t \<noteq> 0 \<or> t_due_date t = None \<or> t_due_date t = Some []
      \<longrightarrow> badge_of t today = None) \<and>
   (\<forall>x \<in> set (fst (index show_arg sort_arg today d)).
      fst x \<in> set (tasks d) \<and> snd x = badge_of (fst x) today)"
proof -
  have "\<forall>x \<in> set (fst (index show_arg sort_arg today d)).
          fst x \<in> set (tasks d) \<and> snd x = badge_of (fst x) today"
    using set_select_tasks [of show_arg sort_arg d] by (auto simp: index_def)
  then show ?thesis
    by (auto simp: badge_of_def split: option.splits)
qed

theorem badge_of_cases_witness:
  "badge_of (tasks example_db ! 1) ''2025-06-16'' = Some Overdue \<and>
   badge_of (tasks example_db ! 1) ''2025-06-15'' = Some DueToday \<and>
   badge_of (tasks example_db ! 1) ''2025-06-14'' = Some Scheduled \<and>
   badge_of (tasks example_db ! 0) ''2025-06-15'' = None \<and>
   badge_of (tasks example_db ! 2) ''2025-06-15'' = None \<and>
   fst (index None None ''2025-06-16'' example_db) = [(tasks example_db ! 1, Some Overdue)]"
  using badge_of_cases [of "tasks example_db ! 1" "''2025-06-15''" "''2025-06-16''" None None example_db]
        badge_of_cases [of "tasks example_db ! 1" "''2025-06-15''" "''2025-06-15''" None None example_db]
        badge_of_cases [of "tasks example_db ! 1" "''2025-06-15''" "''2025-06-14''" None None example_db]
        badge_of_cases [of "tasks example_db ! 0" "''2025-06-14''" "''2025-06-15''" None None example_db]
        badge_of_cases [of "tasks example_db ! 2" "[]" "''2025-06-15''" None None example_db]
  by (simp add: example_db_def index_def select_tasks_def args_get_def order_by_def
        order_rows_def where_clause_def)

section \<open>The routes that reject or do nothing\<close>

text \<open>
  Claim C5. When the submitted title is absent, empty or made of whitespace only,
  \<open>add_task\<close> ends with the flash for an empty title and the state is the one before:
  no row is inserted, no event appended.
\<close>

theorem add_task_blank_title:
  "\<forall>c \<in> set (or_empty form_title). py_isspace c \<Longrightarrow>
   add_task form_title form_due ts now d = (ValidationError, d)"
  by (simp add: add_task_def py_strip_empty_iff)

theorem add_task_blank_title_witness:
  "list_all py_isspace (or_empty (Some [CHR '' '', CHR 0x09, CHR '' ''])) \<and>
   add_task (Some [CHR '' '', CHR 0x09, CHR '' '']) (Some ''2025-06-15'')
     ''2025-06-04T07:00:00Z'' ''2025-06-04T07:00:00Z'' example_db = (ValidationError, example_db)"
  using add_task_blank_title [of "Some [CHR '' '', CHR 0x09, CHR '' '']" "Some ''2025-06-15''"
      "''2025-06-04T07:00:00Z''" "''2025-06-04T07:00:00Z''" example_db]
  by (simp add: or_empty_def py_isspace_def)

text \<open>
  Claim C6. \<open>toggle_task\<close> on a deleted task (\<open>deleted\<close> = 1) ends with InvalidState and
  leaves the state as it was; on an id that no row has it ends with NotFound and leaves
  the state as it was; on any other existing task it succeeds and the task then has
  \<open>done\<close> flipped (1 becomes 0, anything else becomes 1) and \<open>updated_at\<close> refreshed.
\<close>

theorem toggle_task_cases:
  "(fetch_task d i = Some t \<and> t_deleted t = 1 \<longrightarrow> toggle_task i ts now d = (InvalidState, d)) \<and>
   ((\<forall>r \<in> set (tasks d). t_id r \<noteq> i) \<longrightarrow> toggle_task i ts now d = (NotFound, d)) \<and>
   (fetch_task d i = Some t \<and> t_deleted t \<noteq> 1 \<longrightarrow>
      fst (toggle_task i ts now d) = Ok \<and>
      fetch_task (snd (toggle_task i ts now d)) i =
        Some (t\<lparr>t_done := (if t_done t = 1 then 0 else 1), t_updated_at := ts\<rparr>))"
proof (intro conjI impI)
  assume "fetch_task d i = Some t \<and> t_deleted t = 1"
  then show "toggle_task i ts now d = (InvalidState, d)"
    by (simp add: toggle_task_def)
next
  assume "\<forall>r \<in> set (tasks d). t_id r \<noteq> i"
  then have "fetch_task d i = None" by (simp add: fetch_task_None_iff)
  then show "toggle_task i ts now d = (NotFound, d)"
    by (simp add: toggle_task_def)
next
  assume a: "fetch_task d i = Some t \<and> t_deleted t \<noteq> 1"
  then show "fst (toggle_task i ts now d) = Ok"
    by (simp add: toggle_task_def Let_def)
next
  assume a: "fetch_task d i = Some t \<and> t_deleted t \<noteq> 1"
  then have f: "find (\<lambda>r. t_id r = i) (tasks d) = Some t" by (simp add: fetch_task_def)
  show "fetch_task (snd (toggle_task i ts now d)) i =
        Some (t\<lparr>t_done := (if t_done t = 1 then 0 else 1), t_updated_at := ts\<rparr>)"
    using a find_map_upd [OF f, of "\<lambda>r. r\<lparr>t_done := (if t_done t = 1 then 0 else 1), t_updated_at := ts\<rparr>"]
    by (simp add: toggle_task_def Let_def fetch_task_def log_event_def update_tasks_def where_id_def)
qed

theorem toggle_task_cases_witness:
  "fetch_task example_db 1 = Some (tasks example_db ! 0) \<and> t_deleted (tasks example_db ! 0) = 1 \<and>
   toggle_task 1 ''2025-06-04T07:00:00Z'' ''2025-06-04T07:00:01Z'' example_db
     = (InvalidState, example_db) \<and>
   3 \<notin> set (map t_id (tasks example_db)) \<and>
   toggle_task 3 ''2025-06-04T07:00:00Z'' ''2025-06-04T07:00:01Z'' example_db
     = (NotFound, example_db) \<and>
   fetch_task example_db 4 = Some (tasks example_db ! 2) \<and> t_deleted (tasks example_db ! 2) \<noteq> 1 \<and>
   fst (toggle_task 4 ''2025-06-04T07:00:00Z'' ''2025-06-04T07:00:01Z'' example_db) = Ok \<and>
   fetch_task (snd (toggle_task 4 ''2025-06-04T07:00:00Z'' ''2025-06-04T07:00:01Z'' example_db)) 4
     = Some \<lparr>t_id = 4, t_title = ''call bob'', t_due_date = None, t_done = 0,
          t_deleted = 0, t_created_at = ''2025-06-02T10:00:00Z'',
          t_updated_at = ''2025-06-04T07:00:00Z''\<rparr>"
  using toggle_task_cases [of example_db 1 "tasks example_db ! 0" "''2025-06-04T07:00:00Z''" "''2025-06-04T07:00:01Z''"]
        toggle_task_cases [of example_db 3 "tasks example_db ! 0" "''2025-06-04T07:00:00Z''" "''2025-06-04T07:00:01Z''"]
        toggle_task_cases [of example_db 4 "tasks example_db ! 2" "''2025-06-04T07:00:00Z''" "''2025-06-04T07:00:01Z''"]
  by (simp add: example_db_def fetch_task_def)

text \<open>
  Claim C7. \<open>delete_task\<close> on a task that is already deleted, and \<open>restore_task\<close> on a
  task that is not deleted, leave the whole state as it was: the task is unchanged and
  no event is appended. A delete of a task not yet deleted and a restore of a deleted
  task append exactly one event, with the action and the id of the task.
\<close>

theorem delete_restore_noop:
  "(fetch_task d i = Some t \<and> t_deleted t = 1 \<longrightarrow> delete_task i ts now d = (AlreadyDeleted, d)) \<and>
   (fetch_task d i = Some t \<and> t_deleted t = 0 \<longrightarrow> restore_task i ts now d = (NotDeleted, d)) \<and>
   (fetch_task d i = Some t \<and> t_deleted t \<noteq> 1 \<longrightarrow>
      (\<exists>e. events (snd (delete_task i ts now d)) = events d @ [e] \<and> e_action e = ''delete''
           \<and> e_task_id e = Some i)) \<and>
   (fetch_task d i = Some t \<and> t_deleted t \<noteq> 0 \<longrightarrow>
      (\<exists>e. events (snd (restore_task i ts now d)) = events d @ [e] \<and> e_action e = ''restore''
           \<and> e_task_id e = Some i))"
  by (simp add: delete_task_def restore_task_def Let_def log_event_def update_tasks_def)

theorem delete_restore_noop_witness:
  "fetch_task example_db 1 = Some (tasks example_db ! 0) \<and> t_deleted (tasks example_db ! 0) = 1 \<and>
   delete_task 1 ''2025-06-04T07:00:00Z'' ''2025-06-04T07:00:01Z'' example_db
     = (AlreadyDeleted, example_db) \<and>
   length (events (snd (restore_task 1 ''2025-06-04T07:00:00Z'' ''2025-06-04T07:00:01Z'' example_db)))
     = Suc (length (events example_db)) \<and>
   fetch_task example_db 2 = Some (tasks example_db ! 1) \<and> t_deleted (tasks example_db ! 1) = 0 \<and>
   restore_task 2 ''2025-06-04T07:00:00Z'' ''2025-06-04T07:00:01Z'' example_db
     = (NotDeleted, example_db) \<and>
   length (events (snd (delete_task 2 ''2025-06-04T07:00:00Z'' ''2025-06-04T07:00:01Z'' example_db)))
     = Suc (length (events example_db))"
  using delete_restore_noop [of example_db 1 "tasks example_db ! 0" "''2025-06-04T07:00:00Z''" "''2025-06-04T07:00:01Z''"]
        delete_restore_noop [of example_db 2 "tasks example_db ! 1" "''2025-06-04T07:00:00Z''" "''2025-06-04T07:00:01Z''"]
  by (auto simp: example_db_def fetch_task_def)

section \<open>What an undo changes\<close>



text \<open>
  Claim C9. When the newest event is a delete, \<open>undo_last\<close> succeeds; in the rows with
  the event's task id it sets \<open>deleted\<close> to 0 and \<open>updated_at\<close> to the current time, and
  it removes the event. The payload plays no part: with any other payload the inverse
  is the same, and id, title, due date, \<open>done\<close> and \<open>created_at\<close> of every row are as
  they were before the undo.
\<close>

theorem undo_delete_frame:
  assumes "last_event d = Some ev" and "e_action ev = ''delete''"
  shows "undo_last ts d =
           (Undone,
            d\<lparr>tasks := map (\<lambda>r. if where_id (e_task_id ev) r
                                 then r\<lparr>t_deleted := 0, t_updated_at := ts\<rparr> else r) (tasks d),
              events := filter (\<lambda>e. e_id e \<noteq> e_id ev) (events d)\<rparr>) \<and>
         apply_inverse (ev\<lparr>e_payload := p\<rparr>) ts d = apply_inverse ev ts d \<and>
         map t_id (tasks (snd (undo_last ts d))) = map t_id (tasks d) \<and>
         map t_title (tasks (snd (undo_last ts d))) = map t_title (tasks d) \<and>
         map t_due_date (tasks (snd (undo_last ts d))) = map t_due_date (tasks d) \<and>
         map t_done (tasks (snd (undo_last ts d))) = map t_done (tasks d) \<and>
         map t_created_at (tasks (snd (undo_last ts d))) = map t_created_at (tasks d)"
proof -
  have u: "undo_last ts d =
           (Undone,
            d\<lparr>tasks := map (\<lambda>r. if where_id (e_task_id ev) r
                                 then r\<lparr>t_deleted := 0, t_updated_at := ts\<rparr> else r) (tasks d),
              events := filter (\<lambda>e. e_id e \<noteq> e_id ev) (events d)\<rparr>)"
    using assms by (simp add: undo_last_def apply_inverse_def update_tasks_def delete_event_def)
  have "apply_inverse (ev\<lparr>e_payload := p\<rparr>) ts d = apply_inverse ev ts d"
    using assms by (simp add: apply_inverse_def)
  then show ?thesis unfolding u by (simp add: comp_def if_distrib cong: if_cong)
qed

theorem undo_delete_frame_witness:
  "last_event example_db = Some (events example_db ! 4) \<and>
   e_action (events example_db ! 4) = ''delete'' \<and>
   undo_last ''2025-06-04T07:05:00Z'' example_db =
     (Undone,
      example_db\<lparr>tasks := (tasks example_db)
                    [0 := (tasks example_db ! 0)\<lparr>t_deleted := 0, t_updated_at := ''2025-06-04T07:05:00Z''\<rparr>],
                 events := butlast (events example_db)\<rparr>)"
  using undo_delete_frame [of example_db "events example_db ! 4" "''2025-06-04T07:05:00Z''" "[]"]
  by (simp add: example_db_def last_event_def where_id_def)

section \<open>Defaults of the query parameters\<close>

text \<open>
  Claim C10. Whenever \<open>show\<close> is absent or is any string other than all, completed and
  deleted, \<open>index\<close> returns what it returns for show=active: the rows with \<open>deleted\<close> = 0
  and \<open>done\<close> = 0. Whenever \<open>sort\<close> is absent or is any string other than due, \<open>index\<close>
  returns what it returns for sort=recent: the rows in descending order of
  \<open>updated_at\<close>.
\<close>

theorem index_defaults:
  "(show_arg \<notin> {Some ''all'', Some ''completed'', Some ''deleted''} \<longrightarrow>
      index show_arg sort_arg today d = index (Some ''active'') sort_arg today d \<and>
      set (listing show_arg sort_arg today d) =
        {r \<in> set (tasks d). t_deleted r = 0 \<and> t_done r = 0}) \<and>
   (sort_arg \<noteq> Some ''due'' \<longrightarrow>
      index show_arg sort_arg today d = index show_arg (Some ''recent'') today d \<and>
      sorted_wrt (\<lambda>a b. t_updated_at b \<le> t_updated_at a) (listing show_arg sort_arg today d))"
proof (intro conjI impI)
  assume a: "show_arg \<notin> {Some ''all'', Some ''completed'', Some ''deleted''}"
  then have w: "where_clause (args_get show_arg ''active'') = where_clause ''active''"
    by (cases show_arg) (auto simp: args_get_def where_clause_def fun_eq_iff)
  then show "index show_arg sort_arg today d = index (Some ''active'') sort_arg today d"
    by (simp add: index_def select_tasks_def args_get_def)
  show "set (listing show_arg sort_arg today d) =
        {r \<in> set (tasks d). t_deleted r = 0 \<and> t_done r = 0}"
    unfolding listing_eq set_select_tasks w by (simp add: where_clause_def)
next
  assume a: "sort_arg \<noteq> Some ''due''"
  then have o: "order_by (args_get sort_arg ''recent'') = order_rows recent_le"
    by (cases sort_arg) (auto simp: args_get_def order_by_def fun_eq_iff)
  then show "index show_arg sort_arg today d = index show_arg (Some ''recent'') today d"
    by (simp add: index_def select_tasks_def args_get_def order_by_def)
  have "sorted_wrt recent_le (listing show_arg sort_arg today d)"
    unfolding listing_eq select_tasks_def o by (rule sorted_recent)
  then show "sorted_wrt (\<lambda>a b. t_updated_at b \<le> t_updated_at a) (listing show_arg sort_arg today d)"
    by (simp add: recent_le_def [abs_def])
qed

theorem index_defaults_witness:
  "Some ''archived'' \<notin> {Some ''all'', Some ''completed'', Some ''deleted''} \<and>
   None \<notin> {Some ''all'', Some ''completed'', Some ''deleted''} \<and>
   Some ''oldest'' \<noteq> Some ''due'' \<and>
   index (Some ''archived'') (Some ''oldest'') ''2025-06-15'' due_db
     = index (Some ''active'') (Some ''recent'') ''2025-06-15'' due_db \<and>
   index None None ''2025-06-15'' due_db
     = index (Some ''active'') (Some ''recent'') ''2025-06-15'' due_db \<and>
   listing None None ''2025-06-15'' due_db
     = [tasks due_db ! 0, tasks due_db ! 2, tasks due_db ! 3, tasks due_db ! 1]"
  using index_defaults [of "Some ''archived''" "Some ''oldest''" "''2025-06-15''" due_db]
        index_defaults [of "Some ''active''" "Some ''oldest''" "''2025-06-15''" due_db]
        index_defaults [of None None "''2025-06-15''" due_db]
        index_defaults [of "Some ''active''" None "''2025-06-15''" due_db]
  by (simp add: due_db_def index_def select_tasks_def args_get_def order_by_def
        order_rows_def where_clause_def recent_le_def)

end
